theory Spec2Isabelle
  imports Main "HOL-Library.Sublist"
begin

section \<open>Strings as the Python code reads them\<close>

text \<open>
  Strings are ASCII texts (\<open>string\<close>). \<open>is_space\<close> is the whitespace class of
  Python's \<open>\s\<close> and \<open>str.strip\<close> on ASCII: tab, line feed, vertical tab, form
  feed, carriage return, the separators 28 to 31, and the blank.
\<close>

definition is_space :: "char \<Rightarrow> bool" where
  "is_space c = (of_char c \<in> {9, 10, 11, 12, 13, 28, 29, 30, 31, 32 :: nat})"

definition is_digit_char :: "char \<Rightarrow> bool" where
  "is_digit_char c = (48 \<le> (of_char c :: nat) \<and> (of_char c :: nat) \<le> 57)"

definition lower_char :: "char \<Rightarrow> char" where
  "lower_char c =
     (if 65 \<le> (of_char c :: nat) \<and> (of_char c :: nat) \<le> 90
      then char_of (of_char c + (32 :: nat)) else c)"

definition py_lower :: "string \<Rightarrow> string" where
  "py_lower s = map lower_char s"

text \<open>Stripping the characters of a class from both ends (\<open>str.strip\<close>, \<open>trim\<close>).\<close>

definition strip_by :: "(char \<Rightarrow> bool) \<Rightarrow> string \<Rightarrow> string" where
  "strip_by P s = rev (dropWhile P (rev (dropWhile P s)))"

definition py_strip :: "string \<Rightarrow> string" where
  "py_strip s = strip_by is_space s"

text \<open>\<open>str.isdigit\<close>: a non-empty string of digits.\<close>

definition py_isdigit :: "string \<Rightarrow> bool" where
  "py_isdigit s = (s \<noteq> [] \<and> list_all is_digit_char s)"

text \<open>
  Replacing every maximal run of characters of a class by one blank:
  \<open>re.sub(r"\s+", " ", v)\<close> in Python, \<open>v.replace(/\s+/g, ' ')\<close> in JavaScript.
\<close>

fun collapse_by :: "(char \<Rightarrow> bool) \<Rightarrow> string \<Rightarrow> string" where
  "collapse_by P [] = []"
| "collapse_by P [c] = (if P c then [CHR '' ''] else [c])"
| "collapse_by P (c # d # cs) =
     (if P c then
        (if P d then collapse_by P (d # cs) else CHR '' '' # collapse_by P (d # cs))
      else c # collapse_by P (d # cs))"

definition collapse_ws :: "string \<Rightarrow> string" where
  "collapse_ws v = collapse_by is_space v"

text \<open>\<open>norm\<close> of \<open>enforce_model_input_commit\<close>:
  \<open>re.sub(r"\s+", " ", (v or "")).strip().lower()\<close>.\<close>

definition norm :: "string \<Rightarrow> string" where
  "norm v = py_lower (py_strip (collapse_ws v))"

text \<open>\<open>a in b\<close> on strings: \<open>a\<close> occurs in \<open>b\<close> as a contiguous piece.\<close>

definition py_in :: "string \<Rightarrow> string \<Rightarrow> bool" where
  "py_in a b = sublist a b"

section \<open>Exceptions\<close>

text \<open>
  The exceptions a Playwright call can raise, as far as the handlers of the program tell
  them apart: \<open>PlaywrightTimeoutError\<close> and any other subclass of \<open>Exception\<close>.
  A call that can raise has an outcome of type \<open>exn + 'a\<close>, a call whose value is not used
  an outcome of type \<open>exn option\<close> (\<open>None\<close>: it returned).
\<close>

datatype exn = PlaywrightTimeoutError | OtherException

section \<open>Listing configuration and the module globals\<close>

text \<open>The dataclass \<open>ListingConfig\<close>; its field \<open>make\<close> is \<open>make_value\<close> here.\<close>

record ListingConfig =
  target_url :: string
  selling_url :: string
  photo_path :: string
  vehicle_type :: string
  year :: string
  make_value :: string
  model :: string
  price :: string
  mileage :: string
  description :: string
  location :: string

definition VEHICLE_TYPE_LABEL :: string where "VEHICLE_TYPE_LABEL = ''Jenis kendaraan''"
definition YEAR_FIELD_LABEL :: string where "YEAR_FIELD_LABEL = ''Tahun''"
definition BRAND_LABEL :: string where "BRAND_LABEL = ''Merek''"
definition MODEL_LABEL :: string where "MODEL_LABEL = ''Model''"
definition MILEAGE_LABEL :: string where "MILEAGE_LABEL = ''Jarak Tempuh''"

definition select_fields :: "ListingConfig \<Rightarrow> (string \<times> string) list" where
  "select_fields c =
     [(VEHICLE_TYPE_LABEL, vehicle_type c), (YEAR_FIELD_LABEL, year c), (BRAND_LABEL, make_value c)]"

section \<open>Select fields: \<open>select_combobox_option\<close> and \<open>enforce_select_fields\<close>\<close>

text \<open>
  What the page answers to one call of \<open>select_combobox_option\<close>. Each of the five
  option locators is one \<open>option_obs\<close>: its \<open>count()\<close> (outside the \<open>try\<close>, so a
  raise leaves the function) and whether the trial click and the click both went through.
\<close>

record option_obs =
  opt_count :: "exn + nat"
  opt_click :: bool

record select_obs =
  combo_count :: "exn + nat"
  combo_click :: bool
  combo_force_click :: bool
  open_wait :: "exn option"
  editable_count :: "exn + nat"
  typing_ok :: bool
  option_patterns :: "option_obs list"
  settle_wait :: "exn option"
  final_value :: string

text \<open>The loop over \<open>option_patterns\<close>: the value is \<open>clicked\<close>.\<close>

fun click_option :: "option_obs list \<Rightarrow> exn + bool" where
  "click_option [] = Inr False"
| "click_option (opt # opts) =
     (case opt_count opt of
        Inl e \<Rightarrow> Inl e
      | Inr n \<Rightarrow>
          if n = 0 then click_option opts
          else if opt_click opt then Inr True
          else click_option opts)"

text \<open>
  Typing into the editable input happens inside a \<open>try\<close> whose handler is \<open>pass\<close>:
  whether it succeeds (\<open>typing_ok\<close>) changes nothing in what follows.
\<close>

definition select_combobox_option :: "select_obs \<Rightarrow> string \<Rightarrow> exn + bool" where
  "select_combobox_option ob option_text =
     (case combo_count ob of
        Inl e \<Rightarrow> Inl e
      | Inr n \<Rightarrow>
          if n = 0 then Inr True
          else if \<not> combo_click ob \<and> \<not> combo_force_click ob then Inr False
          else
            (case open_wait ob of
               Some e \<Rightarrow> Inl e
             | None \<Rightarrow>
                 (case editable_count ob of
                    Inl e \<Rightarrow> Inl e
                  | Inr m \<Rightarrow>
                      (case click_option (option_patterns ob) of
                         Inl e \<Rightarrow> Inl e
                       | Inr clicked \<Rightarrow>
                           if \<not> clicked then Inr False
                           else
                             (case settle_wait ob of
                                Some e \<Rightarrow> Inl e
                              | None \<Rightarrow>
                                  Inr (final_value ob = option_text
                                       \<or> py_in (py_lower option_text)
                                                (py_lower (final_value ob))))))))"

text \<open>
  \<open>enforce_select_fields\<close>: \<open>page\<close> answers each label with a \<open>select_obs\<close>; the
  accumulator is \<open>ok\<close>. There is no \<open>try\<close>: a raise in a field leaves the function.
\<close>

fun enforce_select_loop ::
  "(string \<Rightarrow> select_obs) \<Rightarrow> (string \<times> string) list \<Rightarrow> bool \<Rightarrow> exn + bool" where
  "enforce_select_loop page [] ok = Inr ok"
| "enforce_select_loop page ((label_text, option_text) # rest) ok =
     (case select_combobox_option (page label_text) option_text of
        Inl e \<Rightarrow> Inl e
      | Inr field_ok \<Rightarrow> enforce_select_loop page rest (ok \<and> field_ok))"

definition enforce_select_fields ::
  "(string \<Rightarrow> select_obs) \<Rightarrow> (string \<times> string) list \<Rightarrow> exn + bool" where
  "enforce_select_fields page sel_fields = enforce_select_loop page sel_fields True"

section \<open>The model field: \<open>enforce_model_input_commit\<close>\<close>

text \<open>
  One container of the active containers. \<open>Input_count_raises\<close>: a \<open>count()\<close> on the
  input locator raised (outside the \<open>try\<close>). \<open>No_input\<close>: no text input, the loop
  continues. \<open>Raised_in_try\<close>: a call of the \<open>try\<close> block up to and including
  \<open>input_value()\<close> raised. \<open>Readback cur vis fb\<close>: the input's value and the visible
  value as read (before \<open>strip\<close>), and what the fallback reads after retyping, when it
  runs: a raise or the two values.
\<close>

datatype container_obs =
    Input_count_raises exn
  | No_input
  | Raised_in_try exn
  | Readback string string "exn + string \<times> string"

fun model_containers_loop :: "string \<Rightarrow> container_obs list \<Rightarrow> bool \<Rightarrow> exn + bool" where
  "model_containers_loop model_value [] required = Inr (\<not> required)"
| "model_containers_loop model_value (Input_count_raises e # cs) required = Inl e"
| "model_containers_loop model_value (No_input # cs) required =
     model_containers_loop model_value cs required"
| "model_containers_loop model_value (Raised_in_try e # cs) required =
     model_containers_loop model_value cs True"
| "model_containers_loop model_value (Readback cur vis fb # cs) required =
     (let current = py_strip cur;
          visible_value = py_strip vis;
          current_ok = (norm current = norm model_value \<and> \<not> py_isdigit current);
          visible_ok = (norm visible_value = norm model_value \<and> \<not> py_isdigit visible_value)
      in if current_ok \<and> visible_ok then Inr True
         else if py_isdigit current \<or> py_isdigit visible_value then
           (case fb of
              Inl e \<Rightarrow> model_containers_loop model_value cs True
            | Inr (cur2, vis2) \<Rightarrow>
                if norm (py_strip cur2) = norm model_value
                   \<and> norm (py_strip vis2) = norm model_value
                then Inr True
                else model_containers_loop model_value cs True)
         else model_containers_loop model_value cs True)"

text \<open>
  The page's answer is \<open>Inl e\<close> when a \<open>count()\<close> on the container locators raises,
  and otherwise the list of active containers (empty: no container has the label, the
  function returns \<open>True\<close>).
\<close>

definition enforce_model_input_commit :: "exn + container_obs list \<Rightarrow> string \<Rightarrow> exn + bool" where
  "enforce_model_input_commit page model_value =
     (case page of
        Inl e \<Rightarrow> Inl e
      | Inr containers \<Rightarrow> model_containers_loop model_value containers False)"

section \<open>The leave-page confirmation: \<open>click_tinggalkan_halaman\<close>\<close>

text \<open>
  One round of the poll loop. For each of the five selectors, \<open>locator.count()\<close> raises
  or there is one entry per matching element: whether its trial click and click went
  through. Then the JavaScript fallback and the wait of 350 ms.
\<close>

record poll_obs =
  selector_items :: "(exn + bool list) list"
  js_clicked :: "exn + bool"
  poll_wait :: "exn option"

definition click_first_actionable :: "exn + bool list \<Rightarrow> exn + bool" where
  "click_first_actionable locator =
     (case locator of Inl e \<Rightarrow> Inl e | Inr items \<Rightarrow> Inr (list_ex (\<lambda>b. b) items))"

fun try_selectors :: "(exn + bool list) list \<Rightarrow> exn + bool" where
  "try_selectors [] = Inr False"
| "try_selectors (l # ls) =
     (case click_first_actionable l of
        Inl e \<Rightarrow> Inl e
      | Inr clicked \<Rightarrow> if clicked then Inr True else try_selectors ls)"

text \<open>
  The poll loop runs while the clock is before the deadline of ten seconds: the list
  holds one \<open>poll_obs\<close> for each round that starts. \<open>Inr True\<close>: a click went through;
  \<open>Inr False\<close>: the window ended without one; \<open>Inl e\<close>: a call raised.
\<close>

fun poll_loop :: "poll_obs list \<Rightarrow> exn + bool" where
  "poll_loop [] = Inr False"
| "poll_loop (p # ps) =
     (case try_selectors (selector_items p) of
        Inl e \<Rightarrow> Inl e
      | Inr clicked \<Rightarrow>
          if clicked then Inr True
          else
            (case js_clicked p of
               Inl e \<Rightarrow> Inl e
             | Inr js \<Rightarrow>
                 if js then Inr True
                 else (case poll_wait p of Some e \<Rightarrow> Inl e | None \<Rightarrow> poll_loop ps)))"

record leave_obs =
  polls :: "poll_obs list"
  present_after :: "exn + bool"

text \<open>\<open>leave_confirmation_present\<close> has its own handler: a raise reads as absent.\<close>

definition leave_confirmation_present :: "leave_obs \<Rightarrow> bool" where
  "leave_confirmation_present ob = (case present_after ob of Inl e \<Rightarrow> False | Inr b \<Rightarrow> b)"

definition click_tinggalkan_halaman :: "leave_obs \<Rightarrow> bool" where
  "click_tinggalkan_halaman ob =
     (case poll_loop (polls ob) of
        Inl e \<Rightarrow> False
      | Inr clicked \<Rightarrow>
          if clicked then True
          else if \<not> leave_confirmation_present ob then True
          else False)"

section \<open>The per-record loop of \<open>run_single_listing\<close>\<close>

text \<open>
  The local variables of \<open>run_single_listing\<close>, and \<open>calls\<close>: the calls made on the
  page so far, oldest first (the effects of the loop).
\<close>

datatype call =
    Upload_photo
  | Goto_target
  | Patch_dom
  | Berikutnya_diagnostics
  | Enforce_select_fields
  | Enforce_model_input_commit
  | Enforce_mileage_commit
  | Click_save_draft
  | Click_tinggalkan_halaman

record loop_state =
  success :: bool
  dom_success :: bool
  photo_success :: bool
  draft_clicked :: bool
  leave_clicked :: bool
  dom_stable_count :: int
  attempts :: int
  selects_ok :: bool
  model_commit_ok :: bool
  mileage_commit_ok :: bool
  calls :: "call list"

definition initial_state :: loop_state where
  "initial_state =
     \<lparr>success = False, dom_success = False, photo_success = False, draft_clicked = False,
      leave_clicked = False, dom_stable_count = 0, attempts = 0, selects_ok = False,
      model_commit_ok = False, mileage_commit_ok = False, calls = []\<rparr>"

text \<open>
  What the page answers in one iteration. \<open>upload_photo\<close>, \<open>click_save_draft\<close> and
  \<open>click_tinggalkan_halaman\<close> catch every exception themselves and return a bool;
  \<open>patch_dom\<close>, the waits, \<open>goto\<close>, \<open>wait_and_find_berikutnya\<close> and the three
  \<open>enforce_\<close> functions can raise. \<open>off_target\<close>: the page's URL does not contain
  \<open>/marketplace/create/vehicle\<close>. \<open>enforce_labeled_text_input_commit\<close> (the mileage)
  is taken by its outcome.
\<close>

record pass_obs =
  pass_wait :: "exn option"
  upload_photo :: bool
  off_target :: bool
  goto_target :: "exn option"
  goto_wait :: "exn option"
  patch_dom :: "exn + bool"
  berikutnya_diag :: "exn option"
  select_page :: "string \<Rightarrow> select_obs"
  model_page :: "exn + container_obs list"
  mileage_commit :: "exn + bool"
  click_save_draft :: bool
  leave_page :: leave_obs

text \<open>
  A piece of the \<open>try\<close> body takes the variables and returns them updated, with the
  exception when it raises: the variables keep what was assigned before the raise.
\<close>

type_synonym stage = "loop_state \<Rightarrow> loop_state \<times> exn option"

definition then_stage :: "stage \<Rightarrow> stage \<Rightarrow> stage" where
  "then_stage f g s = (case f s of (s', Some e) \<Rightarrow> (s', Some e) | (s', None) \<Rightarrow> g s')"

definition called :: "call \<Rightarrow> loop_state \<Rightarrow> loop_state" where
  "called c s = s\<lparr>calls := calls s @ [c]\<rparr>"

definition stage_wait :: "pass_obs \<Rightarrow> stage" where
  "stage_wait ob s = (s\<lparr>attempts := attempts s + 1\<rparr>, pass_wait ob)"

definition stage_photo :: "pass_obs \<Rightarrow> stage" where
  "stage_photo ob s =
     (if \<not> photo_success s
      then (called Upload_photo (s\<lparr>photo_success := upload_photo ob\<rparr>), None)
      else (s, None))"

definition stage_goto :: "pass_obs \<Rightarrow> stage" where
  "stage_goto ob s =
     (if off_target ob then
        (case goto_target ob of
           Some e \<Rightarrow> (called Goto_target s, Some e)
         | None \<Rightarrow> (called Goto_target s, goto_wait ob))
      else (s, None))"

definition stage_patch :: "pass_obs \<Rightarrow> stage" where
  "stage_patch ob s =
     (case patch_dom ob of
        Inl e \<Rightarrow> (called Patch_dom s, Some e)
      | Inr ok \<Rightarrow>
          (called Patch_dom
             (s\<lparr>dom_success := ok,
                dom_stable_count := (if ok then dom_stable_count s + 1 else 0)\<rparr>), None))"

definition stage_diag :: "pass_obs \<Rightarrow> stage" where
  "stage_diag ob s =
     (if \<not> dom_success s \<and> attempts s mod 6 = 0
      then (called Berikutnya_diagnostics s, berikutnya_diag ob)
      else (s, None))"

definition stage_enforce :: "ListingConfig \<Rightarrow> pass_obs \<Rightarrow> stage" where
  "stage_enforce config ob s =
     (if dom_stable_count s \<ge> 2 then
        (case enforce_select_fields (select_page ob) (select_fields config) of
           Inl e \<Rightarrow> (called Enforce_select_fields s, Some e)
         | Inr sel \<Rightarrow>
             (let s1 = called Enforce_select_fields (s\<lparr>selects_ok := sel\<rparr>) in
              case enforce_model_input_commit (model_page ob) (model config) of
                Inl e \<Rightarrow> (called Enforce_model_input_commit s1, Some e)
              | Inr mo \<Rightarrow>
                  (let s2 = called Enforce_model_input_commit (s1\<lparr>model_commit_ok := mo\<rparr>) in
                   case mileage_commit ob of
                     Inl e \<Rightarrow> (called Enforce_mileage_commit s2, Some e)
                   | Inr mi \<Rightarrow>
                       (called Enforce_mileage_commit (s2\<lparr>mileage_commit_ok := mi\<rparr>), None))))
      else (s, None))"

definition stage_save :: "pass_obs \<Rightarrow> stage" where
  "stage_save ob s =
     (if dom_stable_count s \<ge> 2 \<and> photo_success s \<and> selects_ok s \<and> model_commit_ok s
         \<and> mileage_commit_ok s \<and> \<not> draft_clicked s
      then (called Click_save_draft (s\<lparr>draft_clicked := click_save_draft ob\<rparr>), None)
      else (s, None))"

definition stage_leave :: "pass_obs \<Rightarrow> stage" where
  "stage_leave ob s =
     (if draft_clicked s \<and> \<not> leave_clicked s
      then (called Click_tinggalkan_halaman
              (s\<lparr>leave_clicked := click_tinggalkan_halaman (leave_page ob)\<rparr>), None)
      else (s, None))"

definition stage_success :: stage where
  "stage_success s =
     (s\<lparr>success := (dom_success s \<and> photo_success s \<and> selects_ok s \<and> model_commit_ok s
                    \<and> mileage_commit_ok s \<and> draft_clicked s \<and> leave_clicked s)\<rparr>, None)"

text \<open>The body of the \<open>try\<close>, up to the test of \<open>success\<close>.\<close>

definition loop_body :: "ListingConfig \<Rightarrow> pass_obs \<Rightarrow> stage" where
  "loop_body config ob =
     then_stage (stage_wait ob)
    (then_stage (stage_photo ob)
    (then_stage (stage_goto ob)
    (then_stage (stage_patch ob)
    (then_stage (stage_diag ob)
    (then_stage (stage_enforce config ob)
    (then_stage (stage_save ob)
    (then_stage (stage_leave ob) stage_success)))))))"

text \<open>
  The \<open>while\<close> loop. The deadline is a wall-clock time, so the loop test succeeds
  finitely often: the list holds one \<open>pass_obs\<close> for each time it would. Both handlers
  (\<open>except PlaywrightTimeoutError: pass\<close> and \<open>except Exception\<close>, which prints)
  go on to the next test; \<open>break\<close> leaves the loop when \<open>success\<close> is set.
\<close>

fun run_loop :: "ListingConfig \<Rightarrow> pass_obs list \<Rightarrow> loop_state \<Rightarrow> loop_state" where
  "run_loop config [] s = s"
| "run_loop config (ob # obs) s =
     (case loop_body config ob s of
        (s', Some PlaywrightTimeoutError) \<Rightarrow> run_loop config obs s'
      | (s', Some OtherException) \<Rightarrow> run_loop config obs s'
      | (s', None) \<Rightarrow> if success s' then s' else run_loop config obs s')"

text \<open>
  The messages the claims are about. \<open>Incomplete_update\<close> carries, in this order,
  \<open>dom_success\<close>, \<open>photo_success\<close>, \<open>selects_ok\<close>, \<open>model_commit_ok\<close>,
  \<open>mileage_commit_ok\<close>, \<open>draft_clicked\<close> and \<open>leave_clicked\<close>; the other prints
  (\<open>[OK]\<close>, \<open>[WARN]\<close>, \<open>[DEBUG]\<close>) are left out.
\<close>

datatype msg =
    Incomplete_update bool bool bool bool bool bool bool
  | Info_fallback_single_run
  | No_image_found nat
  | Listing_start nat nat
  | Incomplete_update_listing nat
  | Opening_selling_page string
  | Completed_with_failures int nat
  | All_listings_posted

text \<open>
  \<open>run_single_listing\<close>: the first \<open>goto\<close> and \<open>wait_and_find_berikutnya\<close> are
  outside the \<open>try\<close>, so their exceptions leave the function. The value is the bool
  returned and the messages printed.
\<close>

record run_obs =
  initial_goto :: "exn option"
  initial_probe :: "exn option"
  passes :: "pass_obs list"

definition incomplete_update :: "loop_state \<Rightarrow> msg" where
  "incomplete_update s =
     Incomplete_update (dom_success s) (photo_success s) (selects_ok s) (model_commit_ok s)
       (mileage_commit_ok s) (draft_clicked s) (leave_clicked s)"

definition run_single_listing :: "ListingConfig \<Rightarrow> run_obs \<Rightarrow> exn + bool \<times> msg list" where
  "run_single_listing config ob =
     (case initial_goto ob of
        Some e \<Rightarrow> Inl e
      | None \<Rightarrow>
          (case initial_probe ob of
             Some e \<Rightarrow> Inl e
           | None \<Rightarrow>
               (let s = run_loop config (passes ob) initial_state in
                if \<not> success s then Inr (False, [incomplete_update s]) else Inr (True, []))))"
section \<open>Parsed JSON\<close>

text \<open>
  What \<open>json.loads\<close> returns: \<open>None\<close>, a bool, an int, a float (\<open>JFloat m e\<close>
  stands for \<open>m\<close> times ten to the power \<open>e\<close>), a str, a list, or a dict. A dict is
  the list of its items, each key once, read with \<open>map_of\<close>.
\<close>

datatype json =
    JNull
  | JBool bool
  | JInt int
  | JFloat int int
  | JStr string
  | JList "json list"
  | JDict "(string \<times> json) list"

fun is_dict :: "json \<Rightarrow> bool" where
  "is_dict (JDict d) = True"
| "is_dict v = False"

fun is_list :: "json \<Rightarrow> bool" where
  "is_list (JList xs) = True"
| "is_list v = False"

text \<open>Python's truth value of a parsed value (\<open>bool(v)\<close>, \<open>not v\<close>).\<close>

fun truthy :: "json \<Rightarrow> bool" where
  "truthy JNull = False"
| "truthy (JBool b) = b"
| "truthy (JInt i) = (i \<noteq> 0)"
| "truthy (JFloat m e) = (m \<noteq> 0)"
| "truthy (JStr s) = (s \<noteq> [])"
| "truthy (JList xs) = (xs \<noteq> [])"
| "truthy (JDict d) = (d \<noteq> [])"

text \<open>
  \<open>str(v)\<close>: a str is itself, \<open>None\<close> and the bools print their names; how a number,
  a list or a dict prints is left to the parameter \<open>render\<close>.
\<close>

definition py_str :: "(json \<Rightarrow> string) \<Rightarrow> json \<Rightarrow> string" where
  "py_str render v =
     (case v of
        JStr s \<Rightarrow> s
      | JNull \<Rightarrow> ''None''
      | JBool b \<Rightarrow> (if b then ''True'' else ''False'')
      | _ \<Rightarrow> render v)"

section \<open>The record source: \<open>load_listings_data\<close>\<close>

text \<open>
  The data file: it does not exist; it exists but reading or parsing it raises (the
  handler prints a warning and returns the empty list); or it parses to a value.
\<close>

datatype data_file = Absent | Invalid | Parsed json




section \<open>Module globals, \<open>build_listing_config\<close> and \<open>apply_listing_globals\<close>\<close>



definition MAKE_INPUT_ID :: string where "MAKE_INPUT_ID = ''_r_2s_''"
definition TOYOTA_INPUT_ID :: string where "TOYOTA_INPUT_ID = ''_r_1s_''"

text \<open>The globals that \<open>apply_listing_globals\<close> assigns, with their values at import.\<close>

record globals =
  TARGET_TEXT :: string
  TARGET_YEAR_TEXT :: string
  MAKE_INPUT_VALUE :: string
  TOYOTA_INPUT_VALUE :: string
  MODEL_INPUT_VALUE :: string
  PRICE_INPUT_VALUE :: string
  MILEAGE_INPUT_VALUE :: string
  DESCRIPTION_TEXT :: string
  LOCATION_TEXT :: string

definition initial_globals :: globals where
  "initial_globals =
     \<lparr>TARGET_TEXT = ''Mobil/Truk'', TARGET_YEAR_TEXT = ''2025'', MAKE_INPUT_VALUE = ''Avanza'',
      TOYOTA_INPUT_VALUE = ''Toyota'', MODEL_INPUT_VALUE = ''Avanza'',
      PRICE_INPUT_VALUE = ''200000'', MILEAGE_INPUT_VALUE = ''120000'',
      DESCRIPTION_TEXT = ''nego tipis km rendah'', LOCATION_TEXT = ''Bekasi''\<rparr>"



definition apply_listing_globals :: "ListingConfig \<Rightarrow> globals \<Rightarrow> globals" where
  "apply_listing_globals config g =
     g\<lparr>TARGET_TEXT := vehicle_type config,
       TARGET_YEAR_TEXT := year config,
       TOYOTA_INPUT_VALUE := make_value config,
       MODEL_INPUT_VALUE := model config,
       PRICE_INPUT_VALUE := price config,
       MILEAGE_INPUT_VALUE := mileage config,
       DESCRIPTION_TEXT := description config,
       LOCATION_TEXT := location config,
       MAKE_INPUT_VALUE := model config\<rparr>"

section \<open>What \<open>patch_dom\<close> does with the make input\<close>

text \<open>
  The arguments \<open>patch_dom\<close> hands to its script, as far as they come from the globals
  or name the two inputs.
\<close>

record patch_args =
  targetText :: string
  targetYearText :: string
  makeInputId :: string
  makeInputValue :: string
  toyotaInputId :: string
  toyotaInputValue :: string
  modelInputValue :: string
  priceInputValue :: string
  mileageInputValue :: string
  descriptionText :: string
  locationText :: string

definition patch_dom_args :: "globals \<Rightarrow> patch_args" where
  "patch_dom_args g =
     \<lparr>targetText = TARGET_TEXT g, targetYearText = TARGET_YEAR_TEXT g,
      makeInputId = MAKE_INPUT_ID, makeInputValue = MAKE_INPUT_VALUE g,
      toyotaInputId = TOYOTA_INPUT_ID, toyotaInputValue = TOYOTA_INPUT_VALUE g,
      modelInputValue = MODEL_INPUT_VALUE g, priceInputValue = PRICE_INPUT_VALUE g,
      mileageInputValue = MILEAGE_INPUT_VALUE g, descriptionText = DESCRIPTION_TEXT g,
      locationText = LOCATION_TEXT g\<rparr>"

text \<open>
  An element of the page, found by its id: its tag name and its value. \<open>host\<close> is what
  the page's own handlers make of a control when the \<open>input\<close>, \<open>change\<close> and
  \<open>blur\<close> events are dispatched on it.
\<close>

record element =
  tagName :: string
  el_value :: string

definition setControlValue :: "(element \<Rightarrow> element) \<Rightarrow> element \<Rightarrow> string \<Rightarrow> element \<times> bool" where
  "setControlValue host el v =
     (let written = el\<lparr>el_value := v\<rparr>;
          after = host written
      in (after, el_value after = v))"

text \<open>
  The first branch of the make input (lines 1099 to 1103): the element with the make
  input's id is an \<open>input\<close>. The value is the page after the write, \<open>makeRequired\<close> and
  \<open>makePatched\<close>. \<open>None\<close>: the other branch, which searches the page's \<open>div\<close>s and is
  not modelled.
\<close>

definition patch_make_input ::
  "(element \<Rightarrow> element) \<Rightarrow> patch_args \<Rightarrow> (string \<rightharpoonup> element)
   \<Rightarrow> ((string \<rightharpoonup> element) \<times> bool \<times> bool) option" where
  "patch_make_input host a doc =
     (case doc (makeInputId a) of
        None \<Rightarrow> None
      | Some makeInput \<Rightarrow>
          if py_lower (tagName makeInput) = ''input'' then
            (let (after, makePatched) = setControlValue host makeInput (makeInputValue a)
             in Some (doc(makeInputId a \<mapsto> after), True, makePatched))
          else None)"

text \<open>
  \<open>modelTextMatches\<close> of the script, on ASCII: \<open>\s\<close> and \<open>trim\<close> in JavaScript take
  tab, line feed, vertical tab, form feed, carriage return and the blank.
\<close>

definition js_space :: "char \<Rightarrow> bool" where
  "js_space c = (of_char c \<in> {9, 10, 11, 12, 13, 32 :: nat})"

definition normalizedText :: "string \<Rightarrow> string" where
  "normalizedText v = py_lower (strip_by js_space (collapse_by js_space v))"

definition modelTextMatches :: "string \<Rightarrow> string \<Rightarrow> bool" where
  "modelTextMatches model_input_value v =
     (let cleaned = strip_by js_space (collapse_by js_space v)
      in if cleaned = [] \<or> list_all is_digit_char cleaned then False
         else normalizedText cleaned = normalizedText model_input_value)"

section \<open>Cookies: \<open>normalize_cookies\<close>\<close>

datatype py_error = KeyError string | ValueError | TypeError | OverflowError

text \<open>
  A value of the normalized cookie: a value taken over as it is, a bool, a text of the
  same-site table, or the float that \<open>float(...)\<close> returns. \<open>to_float\<close> is Python's
  \<open>float\<close> on a parsed value, with the error it raises.
\<close>

datatype 'f cookie_value = Raw json | Flag bool | Text string | Epoch 'f

definition same_site_map :: "(string \<times> string) list" where
  "same_site_map =
     [(''lax'', ''Lax''), (''strict'', ''Strict''), (''no_restriction'', ''None''),
      (''none'', ''None'')]"

definition subscript :: "(string \<times> json) list \<Rightarrow> string \<Rightarrow> py_error + json" where
  "subscript c key = (case map_of c key of None \<Rightarrow> Inl (KeyError key) | Some v \<Rightarrow> Inr v)"

definition get_default :: "(string \<times> json) list \<Rightarrow> string \<Rightarrow> json \<Rightarrow> json" where
  "get_default c key dflt = (case map_of c key of None \<Rightarrow> dflt | Some v \<Rightarrow> v)"

definition same_site_item ::
  "(json \<Rightarrow> string) \<Rightarrow> (string \<times> json) list \<Rightarrow> (string \<times> 'f cookie_value) list" where
  "same_site_item render c =
     (let same_site = get_default c ''sameSite'' JNull in
      if same_site \<noteq> JNull then
        (case map_of same_site_map (py_lower (py_str render same_site)) of
           None \<Rightarrow> []
         | Some mapped \<Rightarrow> if mapped \<noteq> [] then [(''sameSite'', Text mapped)] else [])
      else [])"

definition expires_item ::
  "(json \<Rightarrow> py_error + 'f) \<Rightarrow> (string \<times> json) list
   \<Rightarrow> py_error + (string \<times> 'f cookie_value) list" where
  "expires_item to_float c =
     (if \<not> truthy (get_default c ''session'' (JBool False))
         \<and> get_default c ''expirationDate'' JNull \<noteq> JNull
      then
        (case subscript c ''expirationDate'' of
           Inl e \<Rightarrow> Inl e
         | Inr v \<Rightarrow> (case to_float v of Inl e \<Rightarrow> Inl e | Inr x \<Rightarrow> Inr [(''expires'', Epoch x)]))
      else Inr [])"

definition normalize_cookie ::
  "(json \<Rightarrow> string) \<Rightarrow> (json \<Rightarrow> py_error + 'f) \<Rightarrow> (string \<times> json) list
   \<Rightarrow> py_error + (string \<times> 'f cookie_value) list" where
  "normalize_cookie render to_float c =
     (case subscript c ''name'' of
        Inl e \<Rightarrow> Inl e
      | Inr name_v \<Rightarrow>
          (case subscript c ''value'' of
             Inl e \<Rightarrow> Inl e
           | Inr value_v \<Rightarrow>
               (case subscript c ''domain'' of
                  Inl e \<Rightarrow> Inl e
                | Inr domain_v \<Rightarrow>
                    (let item =
                           [(''name'', Raw name_v), (''value'', Raw value_v),
                            (''domain'', Raw domain_v),
                            (''path'', Raw (get_default c ''path'' (JStr ''/''))),
                            (''httpOnly'', Flag (truthy (get_default c ''httpOnly'' (JBool False)))),
                            (''secure'', Flag (truthy (get_default c ''secure'' (JBool True))))]
                           @ same_site_item render c
                     in case expires_item to_float c of
                          Inl e \<Rightarrow> Inl e
                        | Inr ex \<Rightarrow> Inr (item @ ex)))))"

fun normalize_cookies ::
  "(json \<Rightarrow> string) \<Rightarrow> (json \<Rightarrow> py_error + 'f) \<Rightarrow> (string \<times> json) list list
   \<Rightarrow> py_error + (string \<times> 'f cookie_value) list list" where
  "normalize_cookies render to_float [] = Inr []"
| "normalize_cookies render to_float (c # raw_cookies) =
     (case normalize_cookie render to_float c of
        Inl e \<Rightarrow> Inl e
      | Inr item \<Rightarrow>
          (case normalize_cookies render to_float raw_cookies of
             Inl e \<Rightarrow> Inl e
           | Inr normalized \<Rightarrow> Inr (item # normalized)))"

section \<open>\<open>main\<close>\<close>

text \<open>
  What the browser answers while one listing is processed: the run itself, then
  \<open>page.goto(config.selling_url)\<close> and the wait that follows it (both outside any
  \<open>try\<close>).
\<close>

record listing_obs =
  run :: run_obs
  goto_selling :: "exn option"
  selling_wait :: "exn option"




text \<open>
  The rest of the world of \<open>main\<close>: the data file; the file system's answer on photos;
  \<open>startup\<close>, an exception while the cookies are loaded and normalized and the browser
  context is opened; the pages per listing; the last wait of twenty seconds; and
  \<open>context.close()\<close>.
\<close>

record main_obs =
  data :: data_file
  resolve_photo :: "string \<Rightarrow> string option"
  photo_arg :: string
  startup :: "exn option"
  listing_page :: "nat \<Rightarrow> listing_obs"
  final_wait :: "exn option"
  closing :: "exn option"



section \<open>Notions used to state the properties\<close>

text \<open>The iteration gets as far as the return of \<open>patch_dom\<close>: no earlier call raises.\<close>

definition reaches_patch :: "pass_obs \<Rightarrow> bool" where
  "reaches_patch ob =
     (pass_wait ob = None \<and> (off_target ob \<longrightarrow> goto_target ob = None \<and> goto_wait ob = None))"

text \<open>The calls one iteration adds, started in \<open>s\<close>.\<close>

definition pass_calls :: "ListingConfig \<Rightarrow> pass_obs \<Rightarrow> loop_state \<Rightarrow> call list" where
  "pass_calls config ob s = drop (length (calls s)) (calls (fst (loop_body config ob s)))"

definition stable_and_confirmed :: "loop_state \<Rightarrow> bool" where
  "stable_and_confirmed s =
     (2 \<le> dom_stable_count s \<and> photo_success s \<and> selects_ok s \<and> model_commit_ok s
      \<and> mileage_commit_ok s)"

definition all_checks :: "loop_state \<Rightarrow> bool" where
  "all_checks s =
     (dom_success s \<and> photo_success s \<and> selects_ok s \<and> model_commit_ok s
      \<and> mileage_commit_ok s \<and> draft_clicked s \<and> leave_clicked s)"

text \<open>A stage that only adds calls other than the save-draft click.\<close>

definition quiet :: "stage \<Rightarrow> bool" where
  "quiet f = (\<forall>s. \<exists>cs. calls (fst (f s)) = calls s @ cs \<and> Click_save_draft \<notin> set cs)"

text \<open>A stage that clicks save-draft only to end stable and confirmed.\<close>

definition save_gated :: "stage \<Rightarrow> bool" where
  "save_gated g =
     (\<forall>s. \<exists>cs. calls (fst (g s)) = calls s @ cs
                \<and> (Click_save_draft \<in> set cs \<longrightarrow> stable_and_confirmed (fst (g s))))"

definition loop_inv :: "loop_state \<Rightarrow> bool" where
  "loop_inv s =
     (0 \<le> dom_stable_count s \<and> (dom_success s \<longrightarrow> 1 \<le> dom_stable_count s)
      \<and> (draft_clicked s \<longrightarrow> Click_save_draft \<in> set (calls s)))"

definition preserves :: "(loop_state \<Rightarrow> bool) \<Rightarrow> stage \<Rightarrow> bool" where
  "preserves P f = (\<forall>s. P s \<longrightarrow> P (fst (f s)))"

definition success_kept :: "stage \<Rightarrow> bool" where
  "success_kept f = (\<forall>s. success (fst (f s)) = success s)"

text \<open>A stage that raises leaves \<open>success\<close> as it was; when it returns, it has set it.\<close>

definition success_by_checks :: "stage \<Rightarrow> bool" where
  "success_by_checks g =
     (\<forall>s s' r. g s = (s', r) \<longrightarrow>
        (case r of Some e \<Rightarrow> success s' = success s | None \<Rightarrow> success s' = all_checks s'))"

text \<open>An option locator that matched an element and whose click went through.\<close>

definition option_clicked :: "option_obs \<Rightarrow> bool" where
  "option_clicked opt = (opt_click opt \<and> (case opt_count opt of Inl e \<Rightarrow> False | Inr n \<Rightarrow> 0 < n))"











text \<open>The same-site value the table gives for a source value, if any.\<close>

definition same_site_of :: "(json \<Rightarrow> string) \<Rightarrow> json \<Rightarrow> string option" where
  "same_site_of render v =
     (let k = py_lower (py_str render v) in
      if k = ''lax'' then Some ''Lax''
      else if k = ''strict'' then Some ''Strict''
      else if k = ''no_restriction'' \<or> k = ''none'' then Some ''None''
      else None)"

definition well_formed_cookie :: "(json \<Rightarrow> py_error + 'f) \<Rightarrow> (string \<times> json) list \<Rightarrow> bool" where
  "well_formed_cookie to_float c =
     (map_of c ''name'' \<noteq> None \<and> map_of c ''value'' \<noteq> None \<and> map_of c ''domain'' \<noteq> None
      \<and> (case map_of c ''expirationDate'' of
            None \<Rightarrow> True
          | Some v \<Rightarrow> (case to_float v of Inl e \<Rightarrow> False | Inr x \<Rightarrow> True)))"

section \<open>Sample inputs\<close>

definition ex_config :: ListingConfig where
  "ex_config =
     \<lparr>target_url = ''https://www.facebook.com/marketplace/create/vehicle'',
      selling_url = ''https://www.facebook.com/marketplace/you/selling'',
      photo_path = ''front.png'', vehicle_type = ''Mobil/Truk'', year = ''2025'',
      make_value = ''Toyota'', model = ''Avanza'', price = ''200000'', mileage = ''120000'',
      description = ''nego tipis km rendah'', location = ''Bekasi''\<rparr>"

text \<open>A page variant without any combobox, and one whose option click goes through.\<close>

definition no_combobox :: select_obs where
  "no_combobox =
     \<lparr>combo_count = Inr 0, combo_click = False, combo_force_click = False, open_wait = None,
      editable_count = Inr 0, typing_ok = False, option_patterns = [], settle_wait = None,
      final_value = []\<rparr>"

definition no_combobox_page :: "string \<Rightarrow> select_obs" where
  "no_combobox_page label_text = no_combobox"

definition picked_toyota :: select_obs where
  "picked_toyota =
     \<lparr>combo_count = Inr 1, combo_click = True, combo_force_click = False, open_wait = None,
      editable_count = Inr 1, typing_ok = True,
      option_patterns = [\<lparr>opt_count = Inr 0, opt_click = False\<rparr>, \<lparr>opt_count = Inr 1, opt_click = True\<rparr>],
      settle_wait = None, final_value = ''TOYOTA''\<rparr>"

definition typed_only :: select_obs where
  "typed_only = picked_toyota\<lparr>option_patterns := [\<lparr>opt_count = Inr 0, opt_click = False\<rparr>],
     final_value := ''Toyota''\<rparr>"

definition no_prompt :: leave_obs where
  "no_prompt = \<lparr>polls = [], present_after = Inr False\<rparr>"

definition stuck_prompt :: leave_obs where
  "stuck_prompt = \<lparr>polls = [], present_after = Inr True\<rparr>"



definition good_pass :: pass_obs where
  "good_pass =
     \<lparr>pass_wait = None, upload_photo = True, off_target = False, goto_target = None,
      goto_wait = None, patch_dom = Inr True, berikutnya_diag = None,
      select_page = no_combobox_page, model_page = Inr [], mileage_commit = Inr True,
      click_save_draft = True, leave_page = no_prompt\<rparr>"

definition stuck_pass :: pass_obs where
  "stuck_pass = good_pass\<lparr>leave_page := stuck_prompt\<rparr>"

definition failed_pass :: pass_obs where
  "failed_pass = stuck_pass\<lparr>patch_dom := Inr False\<rparr>"

definition raising_pass :: pass_obs where
  "raising_pass = good_pass\<lparr>patch_dom := Inl OtherException\<rparr>"

definition after_one_pass :: loop_state where
  "after_one_pass = fst (loop_body ex_config good_pass initial_state)"

definition good_run :: run_obs where
  "good_run = \<lparr>initial_goto = None, initial_probe = None, passes = [good_pass, good_pass]\<rparr>"

definition unstable_run :: run_obs where
  "unstable_run =
     \<lparr>initial_goto = None, initial_probe = None,
      passes = [stuck_pass, stuck_pass, failed_pass, good_pass]\<rparr>"


text \<open>Worlds for \<open>main\<close>: how numbers print, and whether a photo is found.\<close>

definition plain_render :: "json \<Rightarrow> string" where
  "plain_render v = ''0''"

definition no_photo_found :: "string \<Rightarrow> string option" where
  "no_photo_found photo_path_arg = None"

definition photo_found :: "string \<Rightarrow> string option" where
  "photo_found photo_path_arg = Some ''front.png''"

definition good_listing_page :: "nat \<Rightarrow> listing_obs" where
  "good_listing_page idx = \<lparr>run = good_run, goto_selling = None, selling_wait = None\<rparr>"

definition selling_raises_page :: "nat \<Rightarrow> listing_obs" where
  "selling_raises_page idx =
     \<lparr>run = good_run, goto_selling = Some PlaywrightTimeoutError, selling_wait = None\<rparr>"


definition one_listing :: data_file where
  "one_listing = Parsed (JList [JDict [(''model'', JStr ''Avanza'')]])"

definition no_photo_world :: main_obs where
  "no_photo_world =
     \<lparr>data = one_listing, resolve_photo = no_photo_found, photo_arg = [], startup = None,
      listing_page = good_listing_page, final_wait = None, closing = None\<rparr>"

definition good_world :: main_obs where
  "good_world = no_photo_world\<lparr>resolve_photo := photo_found\<rparr>"

definition selling_raises_world :: main_obs where
  "selling_raises_world = good_world\<lparr>listing_page := selling_raises_page\<rparr>"




text \<open>Cookies, and a \<open>float\<close> that accepts an int.\<close>

definition int_to_float :: "json \<Rightarrow> py_error + int" where
  "int_to_float v = (case v of JInt i \<Rightarrow> Inr i | _ \<Rightarrow> Inl TypeError)"

definition session_cookie :: "(string \<times> json) list" where
  "session_cookie =
     [(''name'', JStr ''c_user''), (''value'', JStr ''1''), (''domain'', JStr ''.facebook.com''),
      (''session'', JBool True), (''expirationDate'', JInt 1800000000),
      (''sameSite'', JStr ''unspecified'')]"

definition lasting_cookie :: "(string \<times> json) list" where
  "lasting_cookie =
     [(''name'', JStr ''xs''), (''value'', JStr ''2''), (''domain'', JStr ''.facebook.com''),
      (''path'', JStr ''/x''), (''httpOnly'', JBool True), (''secure'', JBool False),
      (''sameSite'', JStr ''No_Restriction''), (''expirationDate'', JInt 1800000000)]"

text \<open>A page whose make input holds a stale text, and a host that leaves controls alone.\<close>

definition make_input_doc :: "string \<rightharpoonup> element" where
  "make_input_doc = [MAKE_INPUT_ID \<mapsto> \<lparr>tagName = ''INPUT'', el_value = ''old''\<rparr>]"

definition idle_host :: "element \<Rightarrow> element" where
  "idle_host el = el"

section \<open>The per-record loop: stability counter, exceptions, success\<close>

lemma quiet_wait: "quiet (stage_wait ob)"
  by (simp add: quiet_def stage_wait_def)

lemma quiet_photo: "quiet (stage_photo ob)"
  by (simp add: quiet_def stage_photo_def called_def)

lemma quiet_goto: "quiet (stage_goto ob)"
  by (simp add: quiet_def stage_goto_def called_def split: option.splits)

lemma quiet_patch: "quiet (stage_patch ob)"
  by (simp add: quiet_def stage_patch_def called_def split: sum.splits)

lemma quiet_diag: "quiet (stage_diag ob)"
  by (simp add: quiet_def stage_diag_def called_def)

lemma quiet_enforce: "quiet (stage_enforce config ob)"
  by (simp add: quiet_def stage_enforce_def called_def Let_def split: sum.splits)

lemma save_gated_tail:
  "save_gated (then_stage (stage_save ob) (then_stage (stage_leave ob) stage_success))"
  by (simp add: save_gated_def then_stage_def stage_save_def stage_leave_def stage_success_def
      called_def stable_and_confirmed_def)

lemma save_gated_then:
  assumes "quiet f" and "save_gated g"
  shows "save_gated (then_stage f g)"
  unfolding save_gated_def
proof
  fix s
  obtain s1 r where fs: "f s = (s1, r)" by (cases "f s")
  from assms(1) fs obtain c1 where c1: "calls s1 = calls s @ c1" "Click_save_draft \<notin> set c1"
    unfolding quiet_def by (metis fst_conv)
  show "\<exists>cs. calls (fst (then_stage f g s)) = calls s @ cs
            \<and> (Click_save_draft \<in> set cs \<longrightarrow> stable_and_confirmed (fst (then_stage f g s)))"
  proof (cases r)
    case (Some e)
    then have "then_stage f g s = (s1, Some e)" by (simp add: then_stage_def fs)
    with c1 show ?thesis by auto
  next
    case None
    then have eq: "then_stage f g s = g s1" by (simp add: then_stage_def fs)
    from assms(2) obtain c2 where c2: "calls (fst (g s1)) = calls s1 @ c2"
      "Click_save_draft \<in> set c2 \<longrightarrow> stable_and_confirmed (fst (g s1))"
      unfolding save_gated_def by blast
    have "calls (fst (then_stage f g s)) = calls s @ (c1 @ c2)" using eq c1 c2 by simp
    moreover have
      "Click_save_draft \<in> set (c1 @ c2) \<longrightarrow> stable_and_confirmed (fst (then_stage f g s))"
      using eq c1 c2 by auto
    ultimately show ?thesis by blast
  qed
qed

lemma save_gated_body: "save_gated (loop_body config ob)"
  unfolding loop_body_def
  by (intro save_gated_then quiet_wait quiet_photo quiet_goto quiet_patch quiet_diag quiet_enforce
      save_gated_tail)

lemma save_click_is_gated:
  assumes "Click_save_draft \<in> set (pass_calls config ob s)"
  shows "stable_and_confirmed (fst (loop_body config ob s))"
proof -
  from save_gated_body[of config ob] obtain cs where
    cs: "calls (fst (loop_body config ob s)) = calls s @ cs"
        "Click_save_draft \<in> set cs \<longrightarrow> stable_and_confirmed (fst (loop_body config ob s))"
    unfolding save_gated_def by blast
  from cs(1) have "pass_calls config ob s = cs" by (simp add: pass_calls_def)
  with assms cs(2) show ?thesis by simp
qed

lemma preserves_then:
  assumes "preserves P f" and "preserves P g"
  shows "preserves P (then_stage f g)"
  unfolding preserves_def
proof (intro allI impI)
  fix s assume p: "P s"
  obtain s1 r where fs: "f s = (s1, r)" by (cases "f s")
  with assms(1) p have p1: "P s1" unfolding preserves_def by (metis fst_conv)
  show "P (fst (then_stage f g s))"
  proof (cases r)
    case (Some e)
    then show ?thesis using p1 by (simp add: then_stage_def fs)
  next
    case None
    then have "then_stage f g s = g s1" by (simp add: then_stage_def fs)
    then show ?thesis using assms(2) p1 unfolding preserves_def by simp
  qed
qed

lemma inv_wait: "preserves loop_inv (stage_wait ob)"
  by (simp add: preserves_def loop_inv_def stage_wait_def)

lemma inv_photo: "preserves loop_inv (stage_photo ob)"
  by (simp add: preserves_def loop_inv_def stage_photo_def called_def)

lemma inv_goto: "preserves loop_inv (stage_goto ob)"
  by (simp add: preserves_def loop_inv_def stage_goto_def called_def split: option.splits)

lemma inv_patch: "preserves loop_inv (stage_patch ob)"
  by (simp add: preserves_def loop_inv_def stage_patch_def called_def split: sum.splits)

lemma inv_diag: "preserves loop_inv (stage_diag ob)"
  by (simp add: preserves_def loop_inv_def stage_diag_def called_def)

lemma inv_enforce: "preserves loop_inv (stage_enforce config ob)"
  by (simp add: preserves_def loop_inv_def stage_enforce_def called_def Let_def split: sum.splits)

lemma inv_save: "preserves loop_inv (stage_save ob)"
  by (simp add: preserves_def loop_inv_def stage_save_def called_def)

lemma inv_leave: "preserves loop_inv (stage_leave ob)"
  by (simp add: preserves_def loop_inv_def stage_leave_def called_def)

lemma inv_success: "preserves loop_inv stage_success"
  by (simp add: preserves_def loop_inv_def stage_success_def)

lemma inv_body: "preserves loop_inv (loop_body config ob)"
  unfolding loop_body_def
  by (intro preserves_then inv_wait inv_photo inv_goto inv_patch inv_diag inv_enforce inv_save
      inv_leave inv_success)

lemma kept_wait: "success_kept (stage_wait ob)"
  by (simp add: success_kept_def stage_wait_def)

lemma kept_photo: "success_kept (stage_photo ob)"
  by (simp add: success_kept_def stage_photo_def called_def)

lemma kept_goto: "success_kept (stage_goto ob)"
  by (simp add: success_kept_def stage_goto_def called_def split: option.splits)

lemma kept_patch: "success_kept (stage_patch ob)"
  by (simp add: success_kept_def stage_patch_def called_def split: sum.splits)

lemma kept_diag: "success_kept (stage_diag ob)"
  by (simp add: success_kept_def stage_diag_def called_def)

lemma kept_enforce: "success_kept (stage_enforce config ob)"
  by (simp add: success_kept_def stage_enforce_def called_def Let_def split: sum.splits)

lemma kept_save: "success_kept (stage_save ob)"
  by (simp add: success_kept_def stage_save_def called_def)

lemma kept_leave: "success_kept (stage_leave ob)"
  by (simp add: success_kept_def stage_leave_def called_def)

lemma by_checks_success: "success_by_checks stage_success"
  by (auto simp: success_by_checks_def stage_success_def all_checks_def)

lemma by_checks_then:
  assumes "success_kept f" and "success_by_checks g"
  shows "success_by_checks (then_stage f g)"
  unfolding success_by_checks_def
proof (intro allI impI)
  fix s s' r assume t: "then_stage f g s = (s', r)"
  obtain s1 r1 where fs: "f s = (s1, r1)" by (cases "f s")
  with assms(1) have k: "success s1 = success s" unfolding success_kept_def by (metis fst_conv)
  show "case r of Some e \<Rightarrow> success s' = success s | None \<Rightarrow> success s' = all_checks s'"
  proof (cases r1)
    case (Some e)
    then have "s' = s1 \<and> r = Some e" using t by (simp add: then_stage_def fs)
    then show ?thesis using k by simp
  next
    case None
    then have "g s1 = (s', r)" using t by (simp add: then_stage_def fs)
    with assms(2) have
      "case r of Some e \<Rightarrow> success s' = success s1 | None \<Rightarrow> success s' = all_checks s'"
      unfolding success_by_checks_def by blast
    then show ?thesis using k by (simp split: option.splits)
  qed
qed

lemma by_checks_body: "success_by_checks (loop_body config ob)"
  unfolding loop_body_def
  by (intro by_checks_then kept_wait kept_photo kept_goto kept_patch kept_diag kept_enforce
      kept_save kept_leave by_checks_success)

lemma body_raises: "loop_body config ob s = (s', Some e) \<Longrightarrow> success s' = success s"
  using by_checks_body[of config ob] unfolding success_by_checks_def by force

lemma body_returns: "loop_body config ob s = (s', None) \<Longrightarrow> success s' = all_checks s'"
  using by_checks_body[of config ob] unfolding success_by_checks_def by force

lemma run_loop_raises:
  "loop_body config ob s = (s', Some e) \<Longrightarrow> run_loop config (ob # obs) s = run_loop config obs s'"
  by (cases e) simp_all

lemma run_loop_inv:
  "loop_inv s \<Longrightarrow> \<not> success s \<Longrightarrow>
   loop_inv (run_loop config obs s)
   \<and> (success (run_loop config obs s) \<longrightarrow> all_checks (run_loop config obs s))"
proof (induction obs arbitrary: s)
  case Nil
  then show ?case by simp
next
  case (Cons ob obs)
  obtain s' r where b: "loop_body config ob s = (s', r)" by (cases "loop_body config ob s")
  have i': "loop_inv s'" using inv_body[of config ob] Cons.prems(1) b
    unfolding preserves_def by (metis fst_conv)
  show ?case
  proof (cases r)
    case (Some e)
    with b have "success s' = success s" using body_raises by blast
    with Cons.prems have ns: "\<not> success s'" by simp
    have "run_loop config (ob # obs) s = run_loop config obs s'"
      using run_loop_raises b Some by blast
    then show ?thesis using Cons.IH[OF i' ns] by simp
  next
    case None
    with b have c: "success s' = all_checks s'" using body_returns by blast
    show ?thesis
    proof (cases "success s'")
      case True
      then have "run_loop config (ob # obs) s = s'" using b None by simp
      then show ?thesis using i' c True by simp
    next
      case False
      then have "run_loop config (ob # obs) s = run_loop config obs s'" using b None by simp
      then show ?thesis using Cons.IH[OF i' False] by simp
    qed
  qed
qed

lemma initial_inv: "loop_inv initial_state \<and> \<not> success initial_state"
  by (simp add: loop_inv_def initial_state_def)

text \<open>The stages after \<open>patch_dom\<close> leave the stability counter alone.\<close>

lemma count_after_patch:
  "dom_stable_count (fst (then_stage (stage_diag ob)
    (then_stage (stage_enforce config ob)
    (then_stage (stage_save ob)
    (then_stage (stage_leave ob) stage_success))) s)) = dom_stable_count s"
  by (auto simp: then_stage_def stage_diag_def stage_enforce_def stage_save_def stage_leave_def
      stage_success_def called_def Let_def split: option.splits sum.splits prod.splits)

lemma count_patch_true:
  assumes "reaches_patch ob" and "patch_dom ob = Inr True"
  shows "dom_stable_count (fst (loop_body config ob s)) = dom_stable_count s + 1"
  using assms unfolding loop_body_def
  apply (subst then_stage_def)
  apply (subst then_stage_def)
  apply (subst then_stage_def)
  apply (subst then_stage_def)
  apply (auto simp: reaches_patch_def stage_wait_def stage_photo_def stage_goto_def stage_patch_def
      called_def count_after_patch split: option.splits)
  done

lemma count_patch_false:
  assumes "reaches_patch ob" and "patch_dom ob = Inr False"
  shows "dom_stable_count (fst (loop_body config ob s)) = 0"
  using assms unfolding loop_body_def
  apply (subst then_stage_def)
  apply (subst then_stage_def)
  apply (subst then_stage_def)
  apply (subst then_stage_def)
  apply (auto simp: reaches_patch_def stage_wait_def stage_photo_def stage_goto_def stage_patch_def
      called_def count_after_patch split: option.splits)
  done

lemma count_patch_raises:
  assumes "\<not> reaches_patch ob \<or> patch_dom ob = Inl e"
  shows "dom_stable_count (fst (loop_body config ob s)) = dom_stable_count s"
  using assms unfolding loop_body_def
  apply (subst then_stage_def)
  apply (subst then_stage_def)
  apply (subst then_stage_def)
  apply (subst then_stage_def)
  apply (auto simp: reaches_patch_def stage_wait_def stage_photo_def stage_goto_def stage_patch_def
      called_def count_after_patch split: option.splits sum.splits)
  done

text \<open>
  C2, as amended. The stability counter goes up by exactly 1 in an iteration whose
  \<open>patch_dom\<close> returns success (so it does not go down over successful passes in a row),
  is set to 0 in an iteration whose \<open>patch_dom\<close> returns failure, and keeps its value in
  an iteration that an exception ends before \<open>patch_dom\<close> has returned, be it raised by
  \<open>patch_dom\<close> or by a call before it.
\<close>

theorem C2_stability_counter:
  "(reaches_patch ob \<and> patch_dom ob = Inr True \<longrightarrow>
      dom_stable_count (fst (loop_body config ob s)) = dom_stable_count s + 1
      \<and> dom_stable_count s \<le> dom_stable_count (fst (loop_body config ob s)))
   \<and> (reaches_patch ob \<and> patch_dom ob = Inr False \<longrightarrow>
      dom_stable_count (fst (loop_body config ob s)) = 0)
   \<and> (\<not> reaches_patch ob \<or> (\<exists>e. patch_dom ob = Inl e) \<longrightarrow>
      dom_stable_count (fst (loop_body config ob s)) = dom_stable_count s)"
proof (intro conjI impI)
  assume a: "reaches_patch ob \<and> patch_dom ob = Inr True"
  then show "dom_stable_count (fst (loop_body config ob s)) = dom_stable_count s + 1"
    using count_patch_true by blast
  then show "dom_stable_count s \<le> dom_stable_count (fst (loop_body config ob s))" by simp
next
  assume "reaches_patch ob \<and> patch_dom ob = Inr False"
  then show "dom_stable_count (fst (loop_body config ob s)) = 0"
    using count_patch_false by blast
next
  assume "\<not> reaches_patch ob \<or> (\<exists>e. patch_dom ob = Inl e)"
  then show "dom_stable_count (fst (loop_body config ob s)) = dom_stable_count s"
    using count_patch_raises by blast
qed

theorem C2_witness:
  "reaches_patch good_pass \<and> patch_dom good_pass = Inr True
   \<and> dom_stable_count (fst (loop_body ex_config good_pass after_one_pass)) = 2
   \<and> reaches_patch failed_pass \<and> patch_dom failed_pass = Inr False
   \<and> dom_stable_count (fst (loop_body ex_config failed_pass after_one_pass)) = 0
   \<and> patch_dom raising_pass = Inl OtherException
   \<and> dom_stable_count (fst (loop_body ex_config raising_pass after_one_pass)) = 1"
proof -
  have g: "reaches_patch good_pass \<and> patch_dom good_pass = Inr True"
    by (simp add: reaches_patch_def good_pass_def)
  have f: "reaches_patch failed_pass \<and> patch_dom failed_pass = Inr False"
    by (simp add: reaches_patch_def failed_pass_def stuck_pass_def good_pass_def)
  have r: "patch_dom raising_pass = Inl OtherException"
    by (simp add: raising_pass_def good_pass_def)
  have one: "dom_stable_count after_one_pass = 1"
    unfolding after_one_pass_def by code_simp
  from g f r one
    C2_stability_counter[of good_pass ex_config after_one_pass]
    C2_stability_counter[of failed_pass ex_config after_one_pass]
    C2_stability_counter[of raising_pass ex_config after_one_pass]
  show ?thesis by auto
qed

text \<open>
  C2 as stated fails: an iteration whose \<open>patch_dom\<close> raises is a DOM pass that did not
  succeed, and it leaves the counter at 1 instead of setting it to 0.
\<close>

theorem C2_counterexample:
  "reaches_patch raising_pass
   \<and> patch_dom raising_pass \<noteq> Inr True
   \<and> dom_stable_count after_one_pass = 1
   \<and> dom_stable_count (fst (loop_body ex_config raising_pass after_one_pass)) \<noteq> 0"
  unfolding after_one_pass_def reaches_patch_def by code_simp



text \<open>
  C1, as amended. When the run of a record ends with \<open>success\<close>, the last iteration had a
  successful DOM pass (the stability counter is at least 1 then; it can be below 2), the
  photo is attached, the flags of the select fields, of the model commit and of the
  mileage commit are set, the save-draft click has succeeded and the leave-page step has
  resolved, and the save-draft click has been made. In any iteration, from any state, the
  save-draft click is made only with the stability counter at 2 or more and the photo,
  the selects, the model and the mileage confirmed in that iteration.
\<close>

theorem C1_success_and_save_gate:
  "(success (run_loop config obs initial_state) \<longrightarrow>
      all_checks (run_loop config obs initial_state)
      \<and> 1 \<le> dom_stable_count (run_loop config obs initial_state)
      \<and> Click_save_draft \<in> set (calls (run_loop config obs initial_state)))
   \<and> (\<forall>s ob. Click_save_draft \<in> set (pass_calls config ob s) \<longrightarrow>
         stable_and_confirmed (fst (loop_body config ob s)))"
proof (intro conjI impI allI)
  assume a: "success (run_loop config obs initial_state)"
  from run_loop_inv[of initial_state config obs] initial_inv
  have i: "loop_inv (run_loop config obs initial_state)"
    and c: "success (run_loop config obs initial_state) \<longrightarrow>
            all_checks (run_loop config obs initial_state)"
    by simp_all
  from a c show ac: "all_checks (run_loop config obs initial_state)" by simp
  from ac i show "1 \<le> dom_stable_count (run_loop config obs initial_state)"
    by (simp add: all_checks_def loop_inv_def)
  from ac i show "Click_save_draft \<in> set (calls (run_loop config obs initial_state))"
    by (simp add: all_checks_def loop_inv_def)
next
  fix s ob
  assume "Click_save_draft \<in> set (pass_calls config ob s)"
  then show "stable_and_confirmed (fst (loop_body config ob s))" by (rule save_click_is_gated)
qed

theorem C1_witness:
  "success (run_loop ex_config (passes good_run) initial_state)
   \<and> all_checks (run_loop ex_config (passes good_run) initial_state)
   \<and> 1 \<le> dom_stable_count (run_loop ex_config (passes good_run) initial_state)
   \<and> Click_save_draft \<in> set (pass_calls ex_config good_pass after_one_pass)
   \<and> stable_and_confirmed (fst (loop_body ex_config good_pass after_one_pass))"
proof -
  have a: "success (run_loop ex_config (passes good_run) initial_state)"
    unfolding good_run_def by code_simp
  have b: "Click_save_draft \<in> set (pass_calls ex_config good_pass after_one_pass)"
    unfolding pass_calls_def after_one_pass_def by code_simp
  from a b C1_success_and_save_gate[of ex_config "passes good_run"]
  show ?thesis by blast
qed

text \<open>
  C1 as stated fails: the save-draft click succeeds in the second pass, the leave-page
  step does not; the third DOM pass fails; in the fourth the DOM pass succeeds, the
  leave-page step resolves, and the run succeeds with the stability counter at 1.
\<close>

theorem C1_counterexample:
  "run_single_listing ex_config unstable_run = Inr (True, [])
   \<and> success (run_loop ex_config (passes unstable_run) initial_state)
   \<and> dom_stable_count (run_loop ex_config (passes unstable_run) initial_state) = 1"
  unfolding unstable_run_def by code_simp

section \<open>The model field\<close>










text \<open>\<open>modelTextMatches\<close> of the script never matches a purely numeric text.\<close>

lemma modelTextMatches_rejects_digits:
  "modelTextMatches model_input_value v \<Longrightarrow>
   \<not> list_all is_digit_char (strip_by js_space (collapse_by js_space v))"
  by (auto simp: modelTextMatches_def Let_def split: if_splits)




section \<open>Select fields\<close>

lemma click_option_true: "click_option opts = Inr True \<Longrightarrow> list_ex option_clicked opts"
  by (induction opts) (auto simp: option_clicked_def split: sum.splits if_splits)

lemma select_true:
  assumes "combo_count ob = Inr n" and "0 < n"
    and "select_combobox_option ob option_text = Inr True"
  shows "click_option (option_patterns ob) = Inr True
         \<and> (final_value ob = option_text
            \<or> py_in (py_lower option_text) (py_lower (final_value ob)))"
  using assms
  by (auto simp: select_combobox_option_def split: sum.splits option.splits if_splits)

lemma enforce_select_loop_true:
  "enforce_select_loop page sel ok = Inr True \<Longrightarrow>
   ok \<and> (\<forall>(l, opt) \<in> set sel. select_combobox_option (page l) opt = Inr True)"
proof (induction page sel ok rule: enforce_select_loop.induct)
  case (1 page ok)
  then show ?case by simp
next
  case (2 page label_text option_text rest ok)
  then show ?case by (auto split: sum.splits)
qed

text \<open>
  C5. When no combobox matches the label, \<open>select_combobox_option\<close> reports the field
  satisfied. When one matches, it reports the field committed only if one of the option
  locators matched an element whose click went through and the display value read again
  equals the option text or contains it without regard to case; without such a click the
  field is not committed, whatever was typed into the backing input and whatever the
  display shows. \<open>enforce_select_fields\<close> is true only if every field is.
\<close>

theorem C5_select_commit:
  "(combo_count ob = Inr 0 \<longrightarrow> select_combobox_option ob option_text = Inr True)
   \<and> ((\<exists>n>0. combo_count ob = Inr n) \<and> select_combobox_option ob option_text = Inr True \<longrightarrow>
        list_ex option_clicked (option_patterns ob)
        \<and> (final_value ob = option_text
           \<or> py_in (py_lower option_text) (py_lower (final_value ob))))
   \<and> ((\<exists>n>0. combo_count ob = Inr n) \<and> \<not> list_ex option_clicked (option_patterns ob) \<longrightarrow>
        select_combobox_option ob option_text \<noteq> Inr True)
   \<and> (enforce_select_fields page sel = Inr True \<longrightarrow>
        (\<forall>(l, opt) \<in> set sel. select_combobox_option (page l) opt = Inr True))"
proof (intro conjI impI)
  assume "combo_count ob = Inr 0"
  then show "select_combobox_option ob option_text = Inr True"
    by (simp add: select_combobox_option_def)
next
  assume a: "(\<exists>n>0. combo_count ob = Inr n) \<and> select_combobox_option ob option_text = Inr True"
  then obtain n where n: "0 < n" "combo_count ob = Inr n" by blast
  from select_true[OF n(2) n(1)] a
  have t: "click_option (option_patterns ob) = Inr True
           \<and> (final_value ob = option_text
              \<or> py_in (py_lower option_text) (py_lower (final_value ob)))" by blast
  then show "list_ex option_clicked (option_patterns ob)" using click_option_true by blast
  from t show "final_value ob = option_text
               \<or> py_in (py_lower option_text) (py_lower (final_value ob))" by blast
next
  assume a: "(\<exists>n>0. combo_count ob = Inr n) \<and> \<not> list_ex option_clicked (option_patterns ob)"
  then obtain n where n: "0 < n" "combo_count ob = Inr n" by blast
  show "select_combobox_option ob option_text \<noteq> Inr True"
  proof
    assume "select_combobox_option ob option_text = Inr True"
    from select_true[OF n(2) n(1) this] have "click_option (option_patterns ob) = Inr True"
      by blast
    then have "list_ex option_clicked (option_patterns ob)" by (rule click_option_true)
    with a show False by blast
  qed
next
  assume "enforce_select_fields page sel = Inr True"
  then show "\<forall>(l, opt) \<in> set sel. select_combobox_option (page l) opt = Inr True"
    using enforce_select_loop_true[of page sel True] by (simp add: enforce_select_fields_def)
qed

theorem C5_witness:
  "combo_count no_combobox = Inr 0
   \<and> select_combobox_option no_combobox ''Toyota'' = Inr True
   \<and> combo_count picked_toyota = Inr 1
   \<and> select_combobox_option picked_toyota ''Toyota'' = Inr True
   \<and> list_ex option_clicked (option_patterns picked_toyota)
   \<and> py_in (py_lower ''Toyota'') (py_lower (final_value picked_toyota))
   \<and> combo_count typed_only = Inr 1
   \<and> \<not> list_ex option_clicked (option_patterns typed_only)
   \<and> typing_ok typed_only \<and> final_value typed_only = ''Toyota''
   \<and> select_combobox_option typed_only ''Toyota'' \<noteq> Inr True
   \<and> enforce_select_fields no_combobox_page (select_fields ex_config) = Inr True"
proof -
  have a: "combo_count no_combobox = Inr 0" by (simp add: no_combobox_def)
  have b: "combo_count picked_toyota = Inr 1
           \<and> select_combobox_option picked_toyota ''Toyota'' = Inr True
           \<and> final_value picked_toyota \<noteq> ''Toyota''"
    by code_simp
  have c: "combo_count typed_only = Inr 1
           \<and> \<not> list_ex option_clicked (option_patterns typed_only)
           \<and> typing_ok typed_only \<and> final_value typed_only = ''Toyota''"
    by code_simp
  have d: "enforce_select_fields no_combobox_page (select_fields ex_config) = Inr True"
    by code_simp
  from a b c d
    C5_select_commit[of no_combobox "''Toyota''" no_combobox_page "select_fields ex_config"]
    C5_select_commit[of picked_toyota "''Toyota''" no_combobox_page "select_fields ex_config"]
    C5_select_commit[of typed_only "''Toyota''" no_combobox_page "select_fields ex_config"]
  show ?thesis by auto
qed

section \<open>The leave-page confirmation\<close>




section \<open>\<open>main\<close>: exit status, failed records, the default record\<close>




















section \<open>Cookies\<close>

lemma same_site_table:
  "map_of same_site_map k =
     (if k = ''lax'' then Some ''Lax''
      else if k = ''strict'' then Some ''Strict''
      else if k = ''no_restriction'' \<or> k = ''none'' then Some ''None''
      else None)"
  by (simp add: same_site_map_def)

lemma same_site_nonempty: "map_of same_site_map k = Some m \<Longrightarrow> m \<noteq> []"
  by (auto simp: same_site_table split: if_splits)

lemma same_site_item_eq:
  "same_site_item render c =
     (case map_of c ''sameSite'' of
        None \<Rightarrow> []
      | Some v \<Rightarrow>
          if v = JNull then []
          else (case same_site_of render v of
                  None \<Rightarrow> []
                | Some m \<Rightarrow> [(''sameSite'', Text m)]))"
proof (cases "map_of c ''sameSite''")
  case None
  then show ?thesis by (simp add: same_site_item_def get_default_def)
next
  case (Some v)
  show ?thesis
  proof (cases "v = JNull")
    case True
    with Some show ?thesis by (simp add: same_site_item_def get_default_def)
  next
    case False
    have t: "map_of same_site_map (py_lower (py_str render v)) = same_site_of render v"
      by (simp add: same_site_table same_site_of_def Let_def)
    show ?thesis
    proof (cases "same_site_of render v")
      case None
      with Some False t show ?thesis by (simp add: same_site_item_def get_default_def)
    next
      case (Some m)
      with t have "map_of same_site_map (py_lower (py_str render v)) = Some m" by simp
      then have "m \<noteq> []" by (rule same_site_nonempty)
      with Some \<open>map_of c ''sameSite'' = Some v\<close> False t show ?thesis
        by (simp add: same_site_item_def get_default_def)
    qed
  qed
qed

lemma same_site_lookup:
  "map_of (same_site_item render c) ''sameSite'' =
     (case map_of c ''sameSite'' of
        None \<Rightarrow> None
      | Some v \<Rightarrow> if v = JNull then None else map_option Text (same_site_of render v))"
proof (cases "map_of c ''sameSite''")
  case None
  then show ?thesis by (simp add: same_site_item_eq)
next
  case (Some v)
  then show ?thesis
    by (cases "v = JNull"; cases "same_site_of render v") (simp_all add: same_site_item_eq)
qed

lemma same_site_other: "k \<noteq> ''sameSite'' \<Longrightarrow> map_of (same_site_item render c) k = None"
proof (cases "map_of c ''sameSite''")
  case None
  then show ?thesis by (simp add: same_site_item_eq)
next
  case (Some v)
  assume "k \<noteq> ''sameSite''"
  with Some show ?thesis
    by (cases "v = JNull"; cases "same_site_of render v") (simp_all add: same_site_item_eq)
qed

lemma expires_other:
  "expires_item to_float c = Inr ex \<Longrightarrow> k \<noteq> ''expires'' \<Longrightarrow> map_of ex k = None"
  by (auto simp: expires_item_def split: if_splits sum.splits)

lemma expires_lookup:
  "expires_item to_float c = Inr ex \<Longrightarrow>
   (map_of ex ''expires'' \<noteq> None) =
     (\<not> (case map_of c ''session'' of None \<Rightarrow> False | Some v \<Rightarrow> truthy v)
      \<and> (\<exists>v. map_of c ''expirationDate'' = Some v \<and> v \<noteq> JNull))"
  by (auto simp: expires_item_def get_default_def subscript_def
      split: if_splits sum.splits option.splits)

lemma lookup_past_same_site:
  "k \<noteq> ''sameSite'' \<Longrightarrow> (map_of ex ++ map_of (same_site_item render c)) k = map_of ex k"
  by (simp add: map_add_def same_site_other)

lemma lookup_same_site:
  "expires_item to_float c = Inr ex \<Longrightarrow>
   (map_of ex ++ map_of (same_site_item render c)) ''sameSite'' =
     map_of (same_site_item render c) ''sameSite''"
  using expires_other[of to_float c ex "''sameSite''"]
  by (simp add: map_add_def split: option.splits)

lemma normalize_cookie_shape:
  assumes "normalize_cookie render to_float c = Inr item"
  shows "\<exists>name_v value_v domain_v ex.
           expires_item to_float c = Inr ex
           \<and> item =
               [(''name'', Raw name_v), (''value'', Raw value_v), (''domain'', Raw domain_v),
                (''path'', Raw (get_default c ''path'' (JStr ''/''))),
                (''httpOnly'', Flag (truthy (get_default c ''httpOnly'' (JBool False)))),
                (''secure'', Flag (truthy (get_default c ''secure'' (JBool True))))]
               @ same_site_item render c @ ex"
  using assms by (auto simp: normalize_cookie_def Let_def split: sum.splits)

lemma normalize_cookie_fields:
  assumes "normalize_cookie render to_float c = Inr item"
  shows "map_of item ''path'' = Some (Raw (case map_of c ''path'' of None \<Rightarrow> JStr ''/'' | Some v \<Rightarrow> v))"
    and "map_of item ''httpOnly'' =
           Some (Flag (case map_of c ''httpOnly'' of None \<Rightarrow> False | Some v \<Rightarrow> truthy v))"
    and "map_of item ''secure'' =
           Some (Flag (case map_of c ''secure'' of None \<Rightarrow> True | Some v \<Rightarrow> truthy v))"
    and "map_of item ''sameSite'' =
           (case map_of c ''sameSite'' of
              None \<Rightarrow> None
            | Some v \<Rightarrow> if v = JNull then None else map_option Text (same_site_of render v))"
    and "(map_of item ''expires'' \<noteq> None) =
           (\<not> (case map_of c ''session'' of None \<Rightarrow> False | Some v \<Rightarrow> truthy v)
            \<and> (\<exists>v. map_of c ''expirationDate'' = Some v \<and> v \<noteq> JNull))"
proof -
  from normalize_cookie_shape[OF assms] obtain name_v value_v domain_v ex where
    ex: "expires_item to_float c = Inr ex"
    and item: "item =
               [(''name'', Raw name_v), (''value'', Raw value_v), (''domain'', Raw domain_v),
                (''path'', Raw (get_default c ''path'' (JStr ''/''))),
                (''httpOnly'', Flag (truthy (get_default c ''httpOnly'' (JBool False)))),
                (''secure'', Flag (truthy (get_default c ''secure'' (JBool True))))]
               @ same_site_item render c @ ex"
    by blast
  show "map_of item ''path'' = Some (Raw (case map_of c ''path'' of None \<Rightarrow> JStr ''/'' | Some v \<Rightarrow> v))"
    unfolding item by (simp add: get_default_def)
  show "map_of item ''httpOnly'' =
           Some (Flag (case map_of c ''httpOnly'' of None \<Rightarrow> False | Some v \<Rightarrow> truthy v))"
    unfolding item by (cases "map_of c ''httpOnly''") (simp_all add: get_default_def)
  show "map_of item ''secure'' =
           Some (Flag (case map_of c ''secure'' of None \<Rightarrow> True | Some v \<Rightarrow> truthy v))"
    unfolding item by (cases "map_of c ''secure''") (simp_all add: get_default_def)
  have "map_of item ''sameSite'' = map_of (same_site_item render c) ''sameSite''"
    unfolding item by (simp add: lookup_same_site[OF ex])
  then show "map_of item ''sameSite'' =
           (case map_of c ''sameSite'' of
              None \<Rightarrow> None
            | Some v \<Rightarrow> if v = JNull then None else map_option Text (same_site_of render v))"
    by (simp only: same_site_lookup)
  have "map_of item ''expires'' = map_of ex ''expires''"
    unfolding item by (simp add: lookup_past_same_site)
  then show "(map_of item ''expires'' \<noteq> None) =
           (\<not> (case map_of c ''session'' of None \<Rightarrow> False | Some v \<Rightarrow> truthy v)
            \<and> (\<exists>v. map_of c ''expirationDate'' = Some v \<and> v \<noteq> JNull))"
    using expires_lookup[OF ex] by simp
qed

lemma normalize_cookies_each:
  "normalize_cookies render to_float raw = Inr out \<Longrightarrow>
   length out = length raw
   \<and> (\<forall>i<length raw. normalize_cookie render to_float (raw ! i) = Inr (out ! i))"
proof (induction raw arbitrary: out)
  case Nil
  then show ?case by simp
next
  case (Cons c raw)
  from Cons.prems obtain item rest where
    i: "normalize_cookie render to_float c = Inr item"
    and r: "normalize_cookies render to_float raw = Inr rest"
    and o: "out = item # rest"
    by (auto split: sum.splits)
  from Cons.IH[OF r] i o show ?case by (auto simp: nth_Cons split: nat.splits)
qed

lemma well_formed_normalizes:
  "well_formed_cookie to_float c \<Longrightarrow> \<exists>item. normalize_cookie render to_float c = Inr item"
  by (auto simp: well_formed_cookie_def normalize_cookie_def expires_item_def subscript_def
      get_default_def Let_def split: option.splits sum.splits)

lemma well_formed_all_normalize:
  "list_all (well_formed_cookie to_float) raw \<Longrightarrow>
   \<exists>out. normalize_cookies render to_float raw = Inr out"
proof (induction raw)
  case Nil
  then show ?case by simp
next
  case (Cons c raw)
  then obtain item out where "normalize_cookie render to_float c = Inr item"
    and "normalize_cookies render to_float raw = Inr out"
    using well_formed_normalizes[of to_float c render] by auto
  then show ?case by simp
qed

text \<open>
  C9. \<open>normalize_cookies\<close> returns one item per raw cookie, in order, whenever every
  cookie has a name, a value and a domain and an expiration date that \<open>float\<close> accepts.
  In each item: the path is the cookie's, or \<open>/\<close> when it has none; \<open>httpOnly\<close> is the
  truth value of the cookie's, or false; \<open>secure\<close> is the truth value of the cookie's, or
  true; \<open>sameSite\<close> is there only when the cookie's value is not \<open>None\<close> and in lower
  case is \<open>lax\<close>, \<open>strict\<close>, \<open>no_restriction\<close> or \<open>none\<close>, and is then \<open>Lax\<close>,
  \<open>Strict\<close>, \<open>None\<close>, \<open>None\<close>; \<open>expires\<close> is there if and only if \<open>session\<close> is
  falsy and \<open>expirationDate\<close> is present and not \<open>None\<close>.
\<close>

theorem C9_normalize_cookies:
  "(normalize_cookies render to_float raw = Inr out \<longrightarrow>
      length out = length raw
      \<and> (\<forall>i<length raw.
           normalize_cookie render to_float (raw ! i) = Inr (out ! i)
           \<and> map_of (out ! i) ''path'' =
               Some (Raw (case map_of (raw ! i) ''path'' of None \<Rightarrow> JStr ''/'' | Some v \<Rightarrow> v))
           \<and> map_of (out ! i) ''httpOnly'' =
               Some (Flag (case map_of (raw ! i) ''httpOnly'' of
                             None \<Rightarrow> False | Some v \<Rightarrow> truthy v))
           \<and> map_of (out ! i) ''secure'' =
               Some (Flag (case map_of (raw ! i) ''secure'' of
                             None \<Rightarrow> True | Some v \<Rightarrow> truthy v))
           \<and> map_of (out ! i) ''sameSite'' =
               (case map_of (raw ! i) ''sameSite'' of
                  None \<Rightarrow> None
                | Some v \<Rightarrow>
                    if v = JNull then None else map_option Text (same_site_of render v))
           \<and> ((map_of (out ! i) ''expires'' \<noteq> None) =
                (\<not> (case map_of (raw ! i) ''session'' of None \<Rightarrow> False | Some v \<Rightarrow> truthy v)
                 \<and> (\<exists>v. map_of (raw ! i) ''expirationDate'' = Some v \<and> v \<noteq> JNull)))))
   \<and> (list_all (well_formed_cookie to_float) raw \<longrightarrow>
        (\<exists>items. normalize_cookies render to_float raw = Inr items))"
proof (rule conjI)
  show "normalize_cookies render to_float raw = Inr out \<longrightarrow>
      length out = length raw
      \<and> (\<forall>i<length raw.
           normalize_cookie render to_float (raw ! i) = Inr (out ! i)
           \<and> map_of (out ! i) ''path'' =
               Some (Raw (case map_of (raw ! i) ''path'' of None \<Rightarrow> JStr ''/'' | Some v \<Rightarrow> v))
           \<and> map_of (out ! i) ''httpOnly'' =
               Some (Flag (case map_of (raw ! i) ''httpOnly'' of
                             None \<Rightarrow> False | Some v \<Rightarrow> truthy v))
           \<and> map_of (out ! i) ''secure'' =
               Some (Flag (case map_of (raw ! i) ''secure'' of
                             None \<Rightarrow> True | Some v \<Rightarrow> truthy v))
           \<and> map_of (out ! i) ''sameSite'' =
               (case map_of (raw ! i) ''sameSite'' of
                  None \<Rightarrow> None
                | Some v \<Rightarrow>
                    if v = JNull then None else map_option Text (same_site_of render v))
           \<and> ((map_of (out ! i) ''expires'' \<noteq> None) =
                (\<not> (case map_of (raw ! i) ''session'' of None \<Rightarrow> False | Some v \<Rightarrow> truthy v)
                 \<and> (\<exists>v. map_of (raw ! i) ''expirationDate'' = Some v \<and> v \<noteq> JNull))))"
  proof (rule impI, rule conjI)
    assume a: "normalize_cookies render to_float raw = Inr out"
    from normalize_cookies_each[OF a] show "length out = length raw" by simp
  next
    assume a: "normalize_cookies render to_float raw = Inr out"
    show "\<forall>i<length raw.
           normalize_cookie render to_float (raw ! i) = Inr (out ! i)
           \<and> map_of (out ! i) ''path'' =
               Some (Raw (case map_of (raw ! i) ''path'' of None \<Rightarrow> JStr ''/'' | Some v \<Rightarrow> v))
           \<and> map_of (out ! i) ''httpOnly'' =
               Some (Flag (case map_of (raw ! i) ''httpOnly'' of
                             None \<Rightarrow> False | Some v \<Rightarrow> truthy v))
           \<and> map_of (out ! i) ''secure'' =
               Some (Flag (case map_of (raw ! i) ''secure'' of
                             None \<Rightarrow> True | Some v \<Rightarrow> truthy v))
           \<and> map_of (out ! i) ''sameSite'' =
               (case map_of (raw ! i) ''sameSite'' of
                  None \<Rightarrow> None
                | Some v \<Rightarrow>
                    if v = JNull then None else map_option Text (same_site_of render v))
           \<and> ((map_of (out ! i) ''expires'' \<noteq> None) =
                (\<not> (case map_of (raw ! i) ''session'' of None \<Rightarrow> False | Some v \<Rightarrow> truthy v)
                 \<and> (\<exists>v. map_of (raw ! i) ''expirationDate'' = Some v \<and> v \<noteq> JNull)))"
    proof (rule allI, rule impI)
      fix i
      assume i: "i < length raw"
      from normalize_cookies_each[OF a] i
      have n: "normalize_cookie render to_float (raw ! i) = Inr (out ! i)" by simp
      note f = normalize_cookie_fields[OF n]
      from n f(1) f(2) f(3) f(4) f(5)
      show "normalize_cookie render to_float (raw ! i) = Inr (out ! i)
           \<and> map_of (out ! i) ''path'' =
               Some (Raw (case map_of (raw ! i) ''path'' of None \<Rightarrow> JStr ''/'' | Some v \<Rightarrow> v))
           \<and> map_of (out ! i) ''httpOnly'' =
               Some (Flag (case map_of (raw ! i) ''httpOnly'' of
                             None \<Rightarrow> False | Some v \<Rightarrow> truthy v))
           \<and> map_of (out ! i) ''secure'' =
               Some (Flag (case map_of (raw ! i) ''secure'' of
                             None \<Rightarrow> True | Some v \<Rightarrow> truthy v))
           \<and> map_of (out ! i) ''sameSite'' =
               (case map_of (raw ! i) ''sameSite'' of
                  None \<Rightarrow> None
                | Some v \<Rightarrow>
                    if v = JNull then None else map_option Text (same_site_of render v))
           \<and> ((map_of (out ! i) ''expires'' \<noteq> None) =
                (\<not> (case map_of (raw ! i) ''session'' of None \<Rightarrow> False | Some v \<Rightarrow> truthy v)
                 \<and> (\<exists>v. map_of (raw ! i) ''expirationDate'' = Some v \<and> v \<noteq> JNull)))"
        by (intro conjI)
    qed
  qed
next
  show "list_all (well_formed_cookie to_float) raw \<longrightarrow>
        (\<exists>items. normalize_cookies render to_float raw = Inr items)"
    using well_formed_all_normalize by blast
qed

theorem C9_witness:
  "list_all (well_formed_cookie int_to_float) [session_cookie, lasting_cookie]
   \<and> normalize_cookies plain_render int_to_float [session_cookie, lasting_cookie]
     = Inr [[(''name'', Raw (JStr ''c_user'')), (''value'', Raw (JStr ''1'')),
             (''domain'', Raw (JStr ''.facebook.com'')), (''path'', Raw (JStr ''/'')),
             (''httpOnly'', Flag False), (''secure'', Flag True)],
            [(''name'', Raw (JStr ''xs'')), (''value'', Raw (JStr ''2'')),
             (''domain'', Raw (JStr ''.facebook.com'')), (''path'', Raw (JStr ''/x'')),
             (''httpOnly'', Flag True), (''secure'', Flag False), (''sameSite'', Text ''None''),
             (''expires'', Epoch 1800000000)]]"
proof -
  have w: "list_all (well_formed_cookie int_to_float) [session_cookie, lasting_cookie]"
    by code_simp
  from w C9_normalize_cookies[of plain_render int_to_float "[session_cookie, lasting_cookie]"]
  obtain items where
    "normalize_cookies plain_render int_to_float [session_cookie, lasting_cookie] = Inr items"
    by blast
  moreover have
    "normalize_cookies plain_render int_to_float [session_cookie, lasting_cookie]
     = Inr [[(''name'', Raw (JStr ''c_user'')), (''value'', Raw (JStr ''1'')),
             (''domain'', Raw (JStr ''.facebook.com'')), (''path'', Raw (JStr ''/'')),
             (''httpOnly'', Flag False), (''secure'', Flag True)],
            [(''name'', Raw (JStr ''xs'')), (''value'', Raw (JStr ''2'')),
             (''domain'', Raw (JStr ''.facebook.com'')), (''path'', Raw (JStr ''/x'')),
             (''httpOnly'', Flag True), (''secure'', Flag False), (''sameSite'', Text ''None''),
             (''expires'', Epoch 1800000000)]]"
    by code_simp
  ultimately show ?thesis using w by simp
qed

section \<open>The make input\<close>

text \<open>
  C10. \<open>apply_listing_globals\<close> assigns the record's model to \<open>MODEL_INPUT_VALUE\<close> and
  to \<open>MAKE_INPUT_VALUE\<close>, and the record's make to \<open>TOYOTA_INPUT_VALUE\<close> only; so
  \<open>patch_dom\<close> hands the model as \<open>makeInputValue\<close> to its script, and an input
  element with the make input's id gets the model text written into it.
\<close>

theorem C10_make_input_gets_model:
  "apply_listing_globals config g =
     \<lparr>TARGET_TEXT = vehicle_type config, TARGET_YEAR_TEXT = year config,
      MAKE_INPUT_VALUE = model config, TOYOTA_INPUT_VALUE = make_value config,
      MODEL_INPUT_VALUE = model config, PRICE_INPUT_VALUE = price config,
      MILEAGE_INPUT_VALUE = mileage config, DESCRIPTION_TEXT = description config,
      LOCATION_TEXT = location config\<rparr>
   \<and> makeInputValue (patch_dom_args (apply_listing_globals config g)) = model config
   \<and> toyotaInputValue (patch_dom_args (apply_listing_globals config g)) = make_value config
   \<and> makeInputId (patch_dom_args (apply_listing_globals config g)) = MAKE_INPUT_ID
   \<and> (doc MAKE_INPUT_ID = Some el \<and> py_lower (tagName el) = ''input'' \<longrightarrow>
        patch_make_input host (patch_dom_args (apply_listing_globals config g)) doc =
          Some (doc(MAKE_INPUT_ID \<mapsto> host (el\<lparr>el_value := model config\<rparr>)), True,
                el_value (host (el\<lparr>el_value := model config\<rparr>)) = model config))"
proof (intro conjI impI)
  show "apply_listing_globals config g =
     \<lparr>TARGET_TEXT = vehicle_type config, TARGET_YEAR_TEXT = year config,
      MAKE_INPUT_VALUE = model config, TOYOTA_INPUT_VALUE = make_value config,
      MODEL_INPUT_VALUE = model config, PRICE_INPUT_VALUE = price config,
      MILEAGE_INPUT_VALUE = mileage config, DESCRIPTION_TEXT = description config,
      LOCATION_TEXT = location config\<rparr>"
    by (cases g) (simp add: apply_listing_globals_def)
  show "makeInputValue (patch_dom_args (apply_listing_globals config g)) = model config"
    by (simp add: patch_dom_args_def apply_listing_globals_def)
  show "toyotaInputValue (patch_dom_args (apply_listing_globals config g)) = make_value config"
    by (simp add: patch_dom_args_def apply_listing_globals_def)
  show "makeInputId (patch_dom_args (apply_listing_globals config g)) = MAKE_INPUT_ID"
    by (simp add: patch_dom_args_def)
next
  assume "doc MAKE_INPUT_ID = Some el \<and> py_lower (tagName el) = ''input''"
  then show "patch_make_input host (patch_dom_args (apply_listing_globals config g)) doc =
          Some (doc(MAKE_INPUT_ID \<mapsto> host (el\<lparr>el_value := model config\<rparr>)), True,
                el_value (host (el\<lparr>el_value := model config\<rparr>)) = model config)"
    by (simp add: patch_make_input_def setControlValue_def patch_dom_args_def
        apply_listing_globals_def Let_def)
qed

theorem C10_witness:
  "make_input_doc MAKE_INPUT_ID = Some \<lparr>tagName = ''INPUT'', el_value = ''old''\<rparr>
   \<and> py_lower (tagName \<lparr>tagName = ''INPUT'', el_value = ''old''\<rparr>) = ''input''
   \<and> make_value ex_config = ''Toyota''
   \<and> patch_make_input idle_host (patch_dom_args (apply_listing_globals ex_config initial_globals))
        make_input_doc
     = Some (make_input_doc(MAKE_INPUT_ID \<mapsto> \<lparr>tagName = ''INPUT'', el_value = ''Avanza''\<rparr>),
             True, True)"
proof -
  have a: "make_input_doc MAKE_INPUT_ID = Some \<lparr>tagName = ''INPUT'', el_value = ''old''\<rparr>"
    by (simp add: make_input_doc_def)
  have b: "py_lower (tagName \<lparr>tagName = ''INPUT'', el_value = ''old''\<rparr>) = ''input''"
    by code_simp
  have c: "make_value ex_config = ''Toyota'' \<and> model ex_config = ''Avanza''"
    by (simp add: ex_config_def)
  from a b
    C10_make_input_gets_model[of ex_config initial_globals make_input_doc
      "\<lparr>tagName = ''INPUT'', el_value = ''old''\<rparr>" idle_host]
  have t: "patch_make_input idle_host
             (patch_dom_args (apply_listing_globals ex_config initial_globals)) make_input_doc =
           Some (make_input_doc(MAKE_INPUT_ID \<mapsto>
                   idle_host (\<lparr>tagName = ''INPUT'', el_value = ''old''\<rparr>
                                \<lparr>el_value := model ex_config\<rparr>)), True,
                 el_value (idle_host (\<lparr>tagName = ''INPUT'', el_value = ''old''\<rparr>
                                        \<lparr>el_value := model ex_config\<rparr>)) = model ex_config)"
    by blast
  have u: "idle_host (\<lparr>tagName = ''INPUT'', el_value = ''old''\<rparr>\<lparr>el_value := model ex_config\<rparr>)
           = \<lparr>tagName = ''INPUT'', el_value = ''Avanza''\<rparr>"
    by (simp add: idle_host_def ex_config_def)
  from a b c show ?thesis unfolding t u by simp
qed

end
